theory Spec2Isabelle
  imports Main "HOL-Library.Word"
begin

section \<open>Build configuration and constants of code\_ix.h\<close>

text \<open>
  The header is compiled in two flavours, selected by the preprocessor symbol
  \<^verbatim>\<open>BEAMASM\<close>: the JIT build defines it, the interpreter build does not.
\<close>

datatype build = BEAMASM | Interpreter

definition ERTS_NUM_CODE_IX :: nat where
  "ERTS_NUM_CODE_IX = 3"

text \<open>
  \<^verbatim>\<open>#ifdef BEAMASM
  #define ERTS_ADDRESSV_SIZE (ERTS_NUM_CODE_IX + 1)
  #define ERTS_SAVE_CALLS_CODE_IX (ERTS_ADDRESSV_SIZE - 1)
  #else
  #define ERTS_ADDRESSV_SIZE ERTS_NUM_CODE_IX
  #endif\<close>
  The second macro does not exist in the interpreter build, hence the option.
\<close>

fun ERTS_ADDRESSV_SIZE :: "build \<Rightarrow> nat" where
  "ERTS_ADDRESSV_SIZE BEAMASM = ERTS_NUM_CODE_IX + 1"
| "ERTS_ADDRESSV_SIZE Interpreter = ERTS_NUM_CODE_IX"

fun ERTS_SAVE_CALLS_CODE_IX :: "build \<Rightarrow> nat option" where
  "ERTS_SAVE_CALLS_CODE_IX BEAMASM = Some (ERTS_ADDRESSV_SIZE BEAMASM - 1)"
| "ERTS_SAVE_CALLS_CODE_IX Interpreter = None"

text \<open>
  \<^verbatim>\<open>typedef struct ErtsDispatchable_ {
      ErtsCodePtr addresses[ERTS_ADDRESSV_SIZE];
  } ErtsDispatchable;\<close>
  A C array of fixed length is a list together with its length; the constructor
  below is the only way the development builds a table, and
  \<open>wf_ErtsDispatchable\<close> states the length the declaration fixes.
\<close>

record 'p ErtsDispatchable =
  addresses :: "'p list"

definition wf_ErtsDispatchable :: "build \<Rightarrow> 'p ErtsDispatchable \<Rightarrow> bool" where
  "wf_ErtsDispatchable b d = (length (addresses d) = ERTS_ADDRESSV_SIZE b)"

definition new_ErtsDispatchable :: "build \<Rightarrow> 'p \<Rightarrow> 'p ErtsDispatchable" where
  "new_ErtsDispatchable b p = \<lparr>addresses = replicate (ERTS_ADDRESSV_SIZE b) p\<rparr>"

text \<open>Indexed read and write of a slot; an index outside the array is a fault.\<close>

definition address_for :: "'p ErtsDispatchable \<Rightarrow> nat \<Rightarrow> 'p option" where
  "address_for d ix = (if ix < length (addresses d) then Some (addresses d ! ix) else None)"

definition set_address :: "'p ErtsDispatchable \<Rightarrow> nat \<Rightarrow> 'p \<Rightarrow> 'p ErtsDispatchable option" where
  "set_address d ix p =
     (if ix < length (addresses d) then Some (d\<lparr>addresses := (addresses d)[ix := p]\<rparr>) else None)"

section \<open>Function headers and code pointers\<close>

unbundle bit_operations_syntax

text \<open>
  The header does not fix the machine types \<^verbatim>\<open>Eterm\<close>, \<^verbatim>\<open>Uint\<close>,
  \<^verbatim>\<open>BeamInstr\<close> and \<^verbatim>\<open>ErtsCodePtr\<close>, nor the macros \<^verbatim>\<open>ASSERT\<close>,
  \<^verbatim>\<open>is_atom\<close>, \<^verbatim>\<open>is_nil\<close> and \<^verbatim>\<open>BeamIsOpCode\<close>: they come from
  \<^verbatim>\<open>sys.h\<close>, \<^verbatim>\<open>erl_term.h\<close> and \<^verbatim>\<open>beam_opcodes.h\<close>. They are parameters here.
  Every one of the machine types is one machine word, so a value of any of them is an
  \<open>'a word\<close> for the word length \<open>'a\<close> of the build, a pointer is a byte address of
  the same width, and memory maps the address of a word to the word stored there.
\<close>

type_synonym 'a heap = "'a word \<Rightarrow> 'a word"

record 'w platform =
  flavour :: build
  debug :: bool
  is_atom :: "'w \<Rightarrow> bool"
  is_nil :: "'w \<Rightarrow> bool"
  BeamIsOpCode_i_func_info :: "'w \<Rightarrow> bool"

definition word_bytes :: "'a::len word" where
  "word_bytes = of_nat (LENGTH('a) div 8)"

text \<open>
  \<^verbatim>\<open>typedef struct ErtsCodeMFA_ { Eterm module; Eterm function; Uint arity; } ErtsCodeMFA;
  typedef struct ErtsCodeInfo_ {
      BeamInstr op;
      union { struct generic_bp* gen_bp; } u;
      ErtsCodeMFA mfa;
  } ErtsCodeInfo;\<close>
  Three words, and two words followed by the three of the triple.
\<close>

definition sizeof_ErtsCodeMFA :: "'a::len word" where
  "sizeof_ErtsCodeMFA = 3 * word_bytes"

definition sizeof_ErtsCodeInfo :: "'a::len word" where
  "sizeof_ErtsCodeInfo = 5 * word_bytes"

definition offsetof_mfa :: "'a::len word" where
  "offsetof_mfa = 2 * word_bytes"

definition op_of :: "'a::len heap \<Rightarrow> 'a word \<Rightarrow> 'a word" where
  "op_of h ci = h ci"

definition module_of :: "'a::len heap \<Rightarrow> 'a word \<Rightarrow> 'a word" where
  "module_of h mfa = h mfa"

definition function_of :: "'a::len heap \<Rightarrow> 'a word \<Rightarrow> 'a word" where
  "function_of h mfa = h (mfa + word_bytes)"

definition arity_of :: "'a::len heap \<Rightarrow> 'a word \<Rightarrow> 'a word" where
  "arity_of h mfa = h (mfa + 2 * word_bytes)"

text \<open>\<^verbatim>\<open>&ci->mfa\<close>\<close>

definition mfa_of :: "'a::len word \<Rightarrow> 'a word" where
  "mfa_of ci = ci + offsetof_mfa"

text \<open>
  \<^verbatim>\<open>ASSERT(e)\<close> aborts the emulator in a debug build when \<open>e\<close> is false and is
  empty otherwise. The fault records which assertion of this header fired.
\<close>

datatype fault = Opcode_assertion | MFA_assertion

definition ASSERT :: "'w platform \<Rightarrow> fault \<Rightarrow> bool \<Rightarrow> fault + unit" where
  "ASSERT pf f e = (if debug pf \<and> \<not> e then Inl f else Inr ())"

definition after :: "fault + unit \<Rightarrow> fault + 'b \<Rightarrow> fault + 'b" where
  "after a k = (case a of Inl f \<Rightarrow> Inl f | Inr _ \<Rightarrow> k)"

text \<open>
  \<^verbatim>\<open>#define ASSERT_MFA(MFA)
      ASSERT((is_atom((MFA)->module) || is_nil((MFA)->module)) &&
             (is_atom((MFA)->function) || is_nil((MFA)->function)) &&
             (((MFA)->arity >= 0 && (MFA)->arity < 1024) || (MFA)->arity == -1))\<close>
  \<^verbatim>\<open>arity\<close> is a \<^verbatim>\<open>Uint\<close>: the comparisons are unsigned and \<^verbatim>\<open>-1\<close> is
  converted to the largest word.
\<close>

definition mfa_condition :: "'a::len word platform \<Rightarrow> 'a heap \<Rightarrow> 'a word \<Rightarrow> bool" where
  "mfa_condition pf h mfa =
     ((is_atom pf (module_of h mfa) \<or> is_nil pf (module_of h mfa)) \<and>
      (is_atom pf (function_of h mfa) \<or> is_nil pf (function_of h mfa)) \<and>
      ((0 \<le> arity_of h mfa \<and> arity_of h mfa < 1024) \<or> arity_of h mfa = - 1))"

definition ASSERT_MFA :: "'a::len word platform \<Rightarrow> 'a heap \<Rightarrow> 'a word \<Rightarrow> fault + unit" where
  "ASSERT_MFA pf h mfa = ASSERT pf MFA_assertion (mfa_condition pf h mfa)"

text \<open>
  \<^verbatim>\<open>#ifndef BEAMASM
      ASSERT(BeamIsOpCode(ci->op, op_i_func_info_IaaI) || !ci->op);
  #endif\<close>
\<close>

definition opcode_condition :: "'a::len word platform \<Rightarrow> 'a heap \<Rightarrow> 'a word \<Rightarrow> bool" where
  "opcode_condition pf h ci = (BeamIsOpCode_i_func_info pf (op_of h ci) \<or> op_of h ci = 0)"

definition ASSERT_opcode :: "'a::len word platform \<Rightarrow> 'a heap \<Rightarrow> 'a word \<Rightarrow> fault + unit" where
  "ASSERT_opcode pf h ci =
     (case flavour pf of
        BEAMASM \<Rightarrow> Inr ()
      | Interpreter \<Rightarrow> ASSERT pf Opcode_assertion (opcode_condition pf h ci))"

text \<open>\<^verbatim>\<open>return (ErtsCodePtr)&ci[1];\<close>\<close>

definition erts_codeinfo_to_code :: "'a::len word platform \<Rightarrow> 'a heap \<Rightarrow> 'a word \<Rightarrow> fault + 'a word" where
  "erts_codeinfo_to_code pf h ci =
     after (ASSERT_opcode pf h ci)
       (after (ASSERT_MFA pf h (mfa_of ci))
          (Inr (ci + sizeof_ErtsCodeInfo)))"

text \<open>\<^verbatim>\<open>const ErtsCodeInfo *ci = &((const ErtsCodeInfo *)I)[-1];\<close>\<close>

definition erts_code_to_codeinfo :: "'a::len word platform \<Rightarrow> 'a heap \<Rightarrow> 'a word \<Rightarrow> fault + 'a word" where
  "erts_code_to_codeinfo pf h I =
     (let ci = I - sizeof_ErtsCodeInfo in
      after (ASSERT_opcode pf h ci)
        (after (ASSERT_MFA pf h (mfa_of ci))
           (Inr ci)))"

text \<open>\<^verbatim>\<open>return (ErtsCodePtr)&mfa[1];\<close>\<close>

definition erts_codemfa_to_code :: "'a::len word platform \<Rightarrow> 'a heap \<Rightarrow> 'a word \<Rightarrow> fault + 'a word" where
  "erts_codemfa_to_code pf h mfa =
     after (ASSERT_MFA pf h mfa) (Inr (mfa + sizeof_ErtsCodeMFA))"

text \<open>\<^verbatim>\<open>const ErtsCodeMFA *mfa = &((const ErtsCodeMFA *)I)[-1];\<close>\<close>

definition erts_code_to_codemfa :: "'a::len word platform \<Rightarrow> 'a heap \<Rightarrow> 'a word \<Rightarrow> fault + 'a word" where
  "erts_code_to_codemfa pf h I =
     (let mfa = I - sizeof_ErtsCodeMFA in
      after (ASSERT_MFA pf h mfa) (Inr mfa))"

text \<open>
  A header is valid when it satisfies what the accessors assert of it: the triple's
  condition and, as the interpreter build checks it, the opcode marker's.
\<close>

definition valid_header :: "'a::len word platform \<Rightarrow> 'a heap \<Rightarrow> 'a word \<Rightarrow> bool" where
  "valid_header pf h ci = (opcode_condition pf h ci \<and> mfa_condition pf h (mfa_of ci))"

subsection \<open>A concrete 64-bit platform and three records in memory\<close>

text \<open>
  The tag scheme of a 64-bit emulator: an atom is an immediate whose low six bits are
  \<open>0x0B\<close>, \<^verbatim>\<open>NIL\<close> is the immediate with all other bits set and tag \<open>0x3B\<close>. The
  opcode word of \<^verbatim>\<open>i_func_info\<close> is a constant of the build; \<open>0x5A\<close> stands for it.
\<close>

definition NIL :: "64 word" where
  "NIL = 0xFFFFFFFFFFFFFFFB"

definition debug_platform :: "build \<Rightarrow> 64 word platform" where
  "debug_platform b =
     \<lparr>flavour = b, debug = True,
      is_atom = (\<lambda>x. x AND 0x3F = 0x0B),
      is_nil = (\<lambda>x. x = NIL),
      BeamIsOpCode_i_func_info = (\<lambda>x. x = 0x5A)\<rparr>"

text \<open>
  At \<open>0x1000\<close> a well-formed header of a function of arity 2; at \<open>0x2000\<close> a record
  whose triple is \<^verbatim>\<open>NIL/NIL/-1\<close> and whose first word is neither the header opcode
  nor zero; at \<open>0x3000\<close> a header whose arity is 5000.
\<close>

definition example_heap :: "64 heap" where
  "example_heap a =
     (if a = 0x1000 then 0x5A
      else if a = 0x1008 then 0
      else if a = 0x1010 then 0x4B
      else if a = 0x1018 then 0x8B
      else if a = 0x1020 then 2
      else if a = 0x2000 then 0x77
      else if a = 0x2008 then 0
      else if a = 0x2010 then NIL
      else if a = 0x2018 then NIL
      else if a = 0x2020 then - 1
      else if a = 0x3000 then 0x5A
      else if a = 0x3008 then 0
      else if a = 0x3010 then 0x4B
      else if a = 0x3018 then 0x8B
      else if a = 0x3020 then 5000
      else 0)"

section \<open>The code indices\<close>

text \<open>
  \<^verbatim>\<open>typedef unsigned ErtsCodeIndex;
  extern erts_atomic32_t the_active_code_index;
  extern erts_atomic32_t the_staging_code_index;\<close>
  The two atomics are the global state the header declares.
\<close>

text \<open>
  Modelled from the spec: the rest of the state of the interface functions, whose bodies
  (in \<^verbatim>\<open>code_ix.c\<close>) are missing from the sources: the position in the staging
  lifecycle ("States: \<open>Idle -> Staged -> Ended -> {Committed | Aborted} -> Idle\<close>"),
  the holder of the write permission ("States: \<open>Free\<close>, \<open>Held\<close>. Only one holder at a
  time"), the wait set of blocked callers and the registered background callbacks. An
  execution context (a process, or a thread doing aux work) is a number, as are a
  callback and its argument.
\<close>

type_synonym ErtsCodeIndex = "32 word"

datatype phase = Idle | Staged | Ended

record code_ix_state =
  the_active_code_index :: "32 word"
  the_staging_code_index :: "32 word"
  lifecycle :: phase
  permission :: "nat option"
  waiters :: "nat list"
  aux_work :: "(nat \<times> nat) list"

text \<open>\<^verbatim>\<open>return erts_atomic32_read_nob(&the_active_code_index);\<close>\<close>

definition erts_active_code_ix :: "code_ix_state \<Rightarrow> ErtsCodeIndex" where
  "erts_active_code_ix s = the_active_code_index s"

text \<open>\<^verbatim>\<open>return erts_atomic32_read_nob(&the_staging_code_index);\<close>\<close>

definition erts_staging_code_ix :: "code_ix_state \<Rightarrow> ErtsCodeIndex" where
  "erts_staging_code_ix s = the_staging_code_index s"

text \<open>
  Modelled from the spec: the retiring index, which no variable holds; "it is the unique
  value in {0,1,2} not equal to either \<open>active\<close> or \<open>staging\<close> at any instant". The
  search below tries 0, 1 and 2 in turn.
\<close>

definition retiring_code_ix :: "code_ix_state \<Rightarrow> ErtsCodeIndex" where
  "retiring_code_ix s =
     (let a = erts_active_code_ix s; g = erts_staging_code_ix s in
      if a \<noteq> 0 \<and> g \<noteq> 0 then 0
      else if a \<noteq> 1 \<and> g \<noteq> 1 then 1
      else 2)"

text \<open>
  Modelled from the spec: the body of \<^verbatim>\<open>erts_code_ix_init\<close>, missing from the
  sources; "one-time process startup; sets \<open>active = 0\<close>, \<open>staging = 1\<close>", with the
  lifecycle idle, the permission free and nothing queued.
\<close>

definition erts_code_ix_init :: code_ix_state where
  "erts_code_ix_init =
     \<lparr>the_active_code_index = 0, the_staging_code_index = 1, lifecycle = Idle,
      permission = None, waiters = [], aux_work = []\<rparr>"

text \<open>
  Modelled from the spec: the debug query \<^verbatim>\<open>erts_has_code_write_permission\<close>,
  "true iff the calling context is the current holder".
\<close>

definition erts_has_code_write_permission :: "nat \<Rightarrow> code_ix_state \<Rightarrow> bool" where
  "erts_has_code_write_permission c s = (permission s = Some c)"

text \<open>
  Modelled from the spec: the body of \<^verbatim>\<open>erts_try_seize_code_write_permission\<close>,
  missing from the sources; "if \<open>Free\<close>, transitions to \<open>Held\<close> and returns true; if
  \<open>Held\<close>, enqueues \<open>caller\<close> on a wait set and returns false", and a caller that
  already holds the permission is a programming-error fault (\<open>None\<close>).
\<close>

definition erts_try_seize_code_write_permission ::
    "nat \<Rightarrow> code_ix_state \<Rightarrow> (bool \<times> code_ix_state) option" where
  "erts_try_seize_code_write_permission c_p s =
     (case permission s of
        None \<Rightarrow> Some (True, s\<lparr>permission := Some c_p\<rparr>)
      | Some holder \<Rightarrow>
          if holder = c_p then None
          else Some (False, s\<lparr>waiters := waiters s @ [c_p]\<rparr>))"

text \<open>
  Modelled from the spec: the body of \<^verbatim>\<open>erts_try_seize_code_write_permission_aux\<close>,
  missing from the sources; "on success, returns true and the caller now holds
  permission. On failure (gate \<open>Held\<close>), returns false and registers \<open>(callback, arg)\<close>".
\<close>

definition erts_try_seize_code_write_permission_aux ::
    "nat \<Rightarrow> nat \<Rightarrow> nat \<Rightarrow> code_ix_state \<Rightarrow> (bool \<times> code_ix_state) option" where
  "erts_try_seize_code_write_permission_aux c func arg s =
     (case permission s of
        None \<Rightarrow> Some (True, s\<lparr>permission := Some c\<rparr>)
      | Some holder \<Rightarrow> Some (False, s\<lparr>aux_work := aux_work s @ [(func, arg)]\<rparr>))"

text \<open>
  Modelled from the spec: the body of \<^verbatim>\<open>erts_release_code_write_permission\<close>,
  missing from the sources; "transitions \<open>Held -> Free\<close>. If there are blocked
  \<open>try_seize\<close> waiters, exactly one is woken; if there are pending background
  registrations, they are all invoked". The result names the woken waiter and the
  callbacks invoked. A release by a context that does not hold the permission is a
  fault.
\<close>

definition erts_release_code_write_permission ::
    "nat \<Rightarrow> code_ix_state \<Rightarrow> ((nat option \<times> (nat \<times> nat) list) \<times> code_ix_state) option" where
  "erts_release_code_write_permission c s =
     (if permission s = Some c
      then Some ((case waiters s of [] \<Rightarrow> None | w # _ \<Rightarrow> Some w, aux_work s),
                 s\<lparr>permission := None, waiters := tl (waiters s), aux_work := []\<rparr>)
      else None)"

text \<open>
  Modelled from the spec: the body of \<^verbatim>\<open>erts_start_staging_code_ix\<close>, missing from
  the sources; "precondition Idle + gate held. Sets \<open>staging\<close> to the current retiring
  index. Moves to \<open>Staged\<close>". The contents of the version-indexed structures belong
  to the loader and are not part of this state.
\<close>

definition erts_start_staging_code_ix :: "nat \<Rightarrow> int \<Rightarrow> code_ix_state \<Rightarrow> code_ix_state option" where
  "erts_start_staging_code_ix c num_new s =
     (if permission s = Some c \<and> lifecycle s = Idle
      then Some (s\<lparr>the_staging_code_index := retiring_code_ix s, lifecycle := Staged\<rparr>)
      else None)"

text \<open>
  Modelled from the spec: the body of \<^verbatim>\<open>erts_end_staging_code_ix\<close>, missing from
  the sources; "precondition \<open>Staged\<close>. Moves to \<open>Ended\<close>".
\<close>

definition erts_end_staging_code_ix :: "nat \<Rightarrow> code_ix_state \<Rightarrow> code_ix_state option" where
  "erts_end_staging_code_ix c s =
     (if permission s = Some c \<and> lifecycle s = Staged
      then Some (s\<lparr>lifecycle := Ended\<rparr>)
      else None)"

text \<open>
  Modelled from the spec: the body of \<^verbatim>\<open>erts_commit_staging_code_ix\<close>, missing
  from the sources; "precondition \<open>Ended\<close>. Atomically swaps the roles: the value of
  \<open>staging\<close> becomes the new \<open>active\<close>. The previously active index becomes the new
  retiring index. Moves to \<open>Idle\<close>". The index that was retiring is the one left for
  \<open>staging\<close>.
\<close>

definition erts_commit_staging_code_ix :: "nat \<Rightarrow> code_ix_state \<Rightarrow> code_ix_state option" where
  "erts_commit_staging_code_ix c s =
     (if permission s = Some c \<and> lifecycle s = Ended
      then Some (s\<lparr>the_active_code_index := erts_staging_code_ix s,
                   the_staging_code_index := retiring_code_ix s,
                   lifecycle := Idle\<rparr>)
      else None)"

text \<open>
  Modelled from the spec: the body of \<^verbatim>\<open>erts_abort_staging_code_ix\<close>, missing from
  the sources; "precondition \<open>Staged\<close> or \<open>Ended\<close>. Discards the staged generation's
  contents; \<open>active\<close> is untouched. Moves to \<open>Idle\<close>".
\<close>

definition erts_abort_staging_code_ix :: "nat \<Rightarrow> code_ix_state \<Rightarrow> code_ix_state option" where
  "erts_abort_staging_code_ix c s =
     (if permission s = Some c \<and> (lifecycle s = Staged \<or> lifecycle s = Ended)
      then Some (s\<lparr>lifecycle := Idle\<rparr>)
      else None)"

subsection \<open>Interleavings of calls\<close>

text \<open>
  Modelled from the spec: how calls of different contexts combine. Each call of the
  interface by a context is one event; the calls of all contexts are interleaved in some
  order, each taking effect at once ("exactly one returns true, the other is enqueued";
  "atomically swaps the roles"). A run stops with \<open>None\<close> at the first fault.
\<close>

datatype event =
    Try_seize nat
  | Try_seize_aux nat nat nat
  | Release nat
  | Start nat int
  | End nat
  | Commit nat
  | Abort nat

datatype outcome =
    Seized bool
  | Released "nat option" "(nat \<times> nat) list"
  | Returned

fun step :: "event \<Rightarrow> code_ix_state \<Rightarrow> (outcome \<times> code_ix_state) option" where
  "step (Try_seize c) s =
     map_option (\<lambda>(r, s'). (Seized r, s')) (erts_try_seize_code_write_permission c s)"
| "step (Try_seize_aux c f a) s =
     map_option (\<lambda>(r, s'). (Seized r, s')) (erts_try_seize_code_write_permission_aux c f a s)"
| "step (Release c) s =
     map_option (\<lambda>((w, cbs), s'). (Released w cbs, s')) (erts_release_code_write_permission c s)"
| "step (Start c n) s = map_option (Pair Returned) (erts_start_staging_code_ix c n s)"
| "step (End c) s = map_option (Pair Returned) (erts_end_staging_code_ix c s)"
| "step (Commit c) s = map_option (Pair Returned) (erts_commit_staging_code_ix c s)"
| "step (Abort c) s = map_option (Pair Returned) (erts_abort_staging_code_ix c s)"

fun exec :: "event list \<Rightarrow> code_ix_state \<Rightarrow> (outcome list \<times> code_ix_state) option" where
  "exec [] s = Some ([], s)"
| "exec (e # es) s =
     (case step e s of
        None \<Rightarrow> None
      | Some (out, s1) \<Rightarrow>
          (case exec es s1 of
             None \<Rightarrow> None
           | Some (outs, s2) \<Rightarrow> Some (out # outs, s2)))"

definition is_release :: "event \<Rightarrow> bool" where
  "is_release e = (case e of Release _ \<Rightarrow> True | _ \<Rightarrow> False)"

definition is_seizure :: "event \<Rightarrow> bool" where
  "is_seizure e = (case e of Try_seize _ \<Rightarrow> True | Try_seize_aux _ _ _ \<Rightarrow> True | _ \<Rightarrow> False)"

text \<open>The index invariant: two distinct indices, both among 0, 1 and 2.\<close>

definition code_ix_inv :: "code_ix_state \<Rightarrow> bool" where
  "code_ix_inv s =
     (erts_active_code_ix s \<noteq> erts_staging_code_ix s \<and>
      erts_active_code_ix s < 3 \<and> erts_staging_code_ix s < 3)"

subsection \<open>Composition and example states\<close>

text \<open>Calling one accessor on the result of another; a fault of the first is the result.\<close>

definition then_call :: "fault + 'b \<Rightarrow> ('b \<Rightarrow> fault + 'c) \<Rightarrow> fault + 'c" where
  "then_call r f = (case r of Inl e \<Rightarrow> Inl e | Inr x \<Rightarrow> f x)"

text \<open>The state after initialisation once context \<open>c\<close> has seized the permission.\<close>

definition holding :: "nat \<Rightarrow> code_ix_state" where
  "holding c = erts_code_ix_init\<lparr>permission := Some c\<rparr>"

section \<open>Headers, code pointers and the dispatch table\<close>


lemma word_bytes_64: "(word_bytes :: 64 word) = 8"
  by (simp add: word_bytes_def)

lemma ASSERT_MFA_ok: "mfa_condition pf h m \<Longrightarrow> ASSERT_MFA pf h m = Inr ()"
  by (simp add: ASSERT_MFA_def ASSERT_def)

lemma ASSERT_opcode_ok: "opcode_condition pf h ci \<Longrightarrow> ASSERT_opcode pf h ci = Inr ()"
  by (simp add: ASSERT_opcode_def ASSERT_def split: build.split)

lemma codeinfo_to_code_valid:
  "valid_header pf h ci \<Longrightarrow> erts_codeinfo_to_code pf h ci = Inr (ci + sizeof_ErtsCodeInfo)"
  by (simp add: erts_codeinfo_to_code_def valid_header_def ASSERT_MFA_ok ASSERT_opcode_ok after_def)

lemma code_to_codeinfo_valid:
  "valid_header pf h (c - sizeof_ErtsCodeInfo) \<Longrightarrow> erts_code_to_codeinfo pf h c = Inr (c - sizeof_ErtsCodeInfo)"
  by (simp add: erts_code_to_codeinfo_def valid_header_def ASSERT_MFA_ok ASSERT_opcode_ok after_def Let_def)

text \<open>
  Claim C3. Header-to-code and code-to-header are inverse to each other on valid
  headers: from a valid header \<open>ci\<close> the code pointer is \<open>ci\<close> plus the size of one
  \<^verbatim>\<open>ErtsCodeInfo\<close> and translating it back gives \<open>ci\<close>; from a code pointer \<open>c\<close>
  preceded by a valid header the header is \<open>c\<close> minus that size and translating it
  forward gives \<open>c\<close>.
\<close>

theorem header_code_roundtrip:
  "(valid_header pf h ci \<longrightarrow>
      erts_codeinfo_to_code pf h ci = Inr (ci + sizeof_ErtsCodeInfo) \<and>
      then_call (erts_codeinfo_to_code pf h ci) (erts_code_to_codeinfo pf h) = Inr ci) \<and>
   (valid_header pf h (c - sizeof_ErtsCodeInfo) \<longrightarrow>
      erts_code_to_codeinfo pf h c = Inr (c - sizeof_ErtsCodeInfo) \<and>
      then_call (erts_code_to_codeinfo pf h c) (erts_codeinfo_to_code pf h) = Inr c)"
proof (intro conjI impI)
  assume v: "valid_header pf h ci"
  show "erts_codeinfo_to_code pf h ci = Inr (ci + sizeof_ErtsCodeInfo)"
    using v by (rule codeinfo_to_code_valid)
  from v have "valid_header pf h (ci + sizeof_ErtsCodeInfo - sizeof_ErtsCodeInfo)" by simp
  then show "then_call (erts_codeinfo_to_code pf h ci) (erts_code_to_codeinfo pf h) = Inr ci"
    by (simp add: then_call_def codeinfo_to_code_valid [OF v] code_to_codeinfo_valid)
next
  assume v: "valid_header pf h (c - sizeof_ErtsCodeInfo)"
  show "erts_code_to_codeinfo pf h c = Inr (c - sizeof_ErtsCodeInfo)"
    using v by (rule code_to_codeinfo_valid)
  show "then_call (erts_code_to_codeinfo pf h c) (erts_codeinfo_to_code pf h) = Inr c"
    by (simp add: then_call_def code_to_codeinfo_valid [OF v] codeinfo_to_code_valid [OF v])
qed

lemma example_valid_header: "valid_header (debug_platform b) example_heap 0x1000"
  by (simp add: valid_header_def opcode_condition_def mfa_condition_def debug_platform_def
      example_heap_def op_of_def module_of_def function_of_def arity_of_def mfa_of_def
      offsetof_mfa_def word_bytes_64)

lemma sizeof_ErtsCodeInfo_64: "(sizeof_ErtsCodeInfo :: 64 word) = 40"
  by (simp add: sizeof_ErtsCodeInfo_def word_bytes_64)

text \<open>
  Claim C3 holds of a concrete input that meets its hypotheses.
\<close>

theorem header_code_roundtrip_witness:
  "valid_header (debug_platform Interpreter) example_heap 0x1000 \<and>
   valid_header (debug_platform Interpreter) example_heap (0x1028 - sizeof_ErtsCodeInfo) \<and>
   erts_codeinfo_to_code (debug_platform Interpreter) example_heap 0x1000 = Inr 0x1028 \<and>
   then_call (erts_codeinfo_to_code (debug_platform Interpreter) example_heap 0x1000)
     (erts_code_to_codeinfo (debug_platform Interpreter) example_heap) = Inr 0x1000 \<and>
   erts_code_to_codeinfo (debug_platform Interpreter) example_heap 0x1028 = Inr 0x1000 \<and>
   then_call (erts_code_to_codeinfo (debug_platform Interpreter) example_heap 0x1028)
     (erts_codeinfo_to_code (debug_platform Interpreter) example_heap) = Inr 0x1028"
  using header_code_roundtrip [of "debug_platform Interpreter" example_heap "0x1000" "0x1028"]
    example_valid_header [of Interpreter]
  by (simp add: sizeof_ErtsCodeInfo_64 then_call_def)


lemma codemfa_to_code_valid:
  "mfa_condition pf h m \<Longrightarrow> erts_codemfa_to_code pf h m = Inr (m + sizeof_ErtsCodeMFA)"
  by (simp add: erts_codemfa_to_code_def ASSERT_MFA_ok after_def)

lemma code_to_codemfa_valid:
  "mfa_condition pf h (c - sizeof_ErtsCodeMFA) \<Longrightarrow>
   erts_code_to_codemfa pf h c = Inr (c - sizeof_ErtsCodeMFA)"
  by (simp add: erts_code_to_codemfa_def ASSERT_MFA_ok after_def Let_def)

lemma mfa_is_last_field:
  "mfa_of ci + sizeof_ErtsCodeMFA = ci + (sizeof_ErtsCodeInfo :: 'a::len word)"
  by (simp add: mfa_of_def offsetof_mfa_def sizeof_ErtsCodeMFA_def sizeof_ErtsCodeInfo_def)

text \<open>
  Claim C9. For a valid header \<open>ci\<close>, \<^verbatim>\<open>erts_codemfa_to_code(&ci->mfa)\<close> equals
  \<^verbatim>\<open>erts_codeinfo_to_code(ci)\<close>, the triple being the last field of the header; and
  \<^verbatim>\<open>erts_codemfa_to_code\<close> and \<^verbatim>\<open>erts_code_to_codemfa\<close> are inverse to each other
  on valid triples.
\<close>

theorem mfa_and_codeinfo_paths_agree:
  "(valid_header pf h ci \<longrightarrow>
      erts_codemfa_to_code pf h (mfa_of ci) = erts_codeinfo_to_code pf h ci \<and>
      erts_codeinfo_to_code pf h ci = Inr (ci + sizeof_ErtsCodeInfo)) \<and>
   (mfa_condition pf h m \<longrightarrow>
      erts_codemfa_to_code pf h m = Inr (m + sizeof_ErtsCodeMFA) \<and>
      then_call (erts_codemfa_to_code pf h m) (erts_code_to_codemfa pf h) = Inr m) \<and>
   (mfa_condition pf h (c - sizeof_ErtsCodeMFA) \<longrightarrow>
      erts_code_to_codemfa pf h c = Inr (c - sizeof_ErtsCodeMFA) \<and>
      then_call (erts_code_to_codemfa pf h c) (erts_codemfa_to_code pf h) = Inr c)"
proof (intro conjI impI)
  assume v: "valid_header pf h ci"
  then have m: "mfa_condition pf h (mfa_of ci)"
    by (simp add: valid_header_def)
  show "erts_codemfa_to_code pf h (mfa_of ci) = erts_codeinfo_to_code pf h ci"
    by (simp add: codemfa_to_code_valid [OF m] codeinfo_to_code_valid [OF v] mfa_is_last_field)
  show "erts_codeinfo_to_code pf h ci = Inr (ci + sizeof_ErtsCodeInfo)"
    using v by (rule codeinfo_to_code_valid)
next
  assume m: "mfa_condition pf h m"
  show "erts_codemfa_to_code pf h m = Inr (m + sizeof_ErtsCodeMFA)"
    using m by (rule codemfa_to_code_valid)
  from m have "mfa_condition pf h (m + sizeof_ErtsCodeMFA - sizeof_ErtsCodeMFA)" by simp
  then show "then_call (erts_codemfa_to_code pf h m) (erts_code_to_codemfa pf h) = Inr m"
    by (simp add: then_call_def codemfa_to_code_valid [OF m] code_to_codemfa_valid)
next
  assume m: "mfa_condition pf h (c - sizeof_ErtsCodeMFA)"
  show "erts_code_to_codemfa pf h c = Inr (c - sizeof_ErtsCodeMFA)"
    using m by (rule code_to_codemfa_valid)
  show "then_call (erts_code_to_codemfa pf h c) (erts_codemfa_to_code pf h) = Inr c"
    by (simp add: then_call_def code_to_codemfa_valid [OF m] codemfa_to_code_valid [OF m])
qed

lemma example_mfa_condition: "mfa_condition (debug_platform b) example_heap 0x1010"
  by (simp add: mfa_condition_def debug_platform_def
      example_heap_def module_of_def function_of_def arity_of_def word_bytes_64)

lemma sizeof_ErtsCodeMFA_64: "(sizeof_ErtsCodeMFA :: 64 word) = 24"
  by (simp add: sizeof_ErtsCodeMFA_def word_bytes_64)

lemma mfa_of_64: "mfa_of (ci :: 64 word) = ci + 16"
  by (simp add: mfa_of_def offsetof_mfa_def word_bytes_64)

text \<open>
  Claim C9 holds of a concrete input that meets its hypotheses.
\<close>

theorem mfa_and_codeinfo_paths_agree_witness:
  "valid_header (debug_platform Interpreter) example_heap 0x1000 \<and>
   mfa_condition (debug_platform Interpreter) example_heap 0x1010 \<and>
   mfa_condition (debug_platform Interpreter) example_heap (0x1028 - sizeof_ErtsCodeMFA) \<and>
   erts_codemfa_to_code (debug_platform Interpreter) example_heap (mfa_of 0x1000) = Inr 0x1028 \<and>
   erts_codeinfo_to_code (debug_platform Interpreter) example_heap 0x1000 = Inr 0x1028 \<and>
   erts_code_to_codemfa (debug_platform Interpreter) example_heap 0x1028 = Inr 0x1010 \<and>
   then_call (erts_codemfa_to_code (debug_platform Interpreter) example_heap 0x1010)
     (erts_code_to_codemfa (debug_platform Interpreter) example_heap) = Inr 0x1010 \<and>
   then_call (erts_code_to_codemfa (debug_platform Interpreter) example_heap 0x1028)
     (erts_codemfa_to_code (debug_platform Interpreter) example_heap) = Inr 0x1028"
  using mfa_and_codeinfo_paths_agree [of "debug_platform Interpreter" example_heap "0x1000" "0x1010" "0x1028"]
    example_valid_header [of Interpreter] example_mfa_condition [of Interpreter]
  by (simp add: sizeof_ErtsCodeInfo_64 sizeof_ErtsCodeMFA_64 mfa_of_64 then_call_def)


lemma ASSERT_MFA_fires:
  "debug pf \<Longrightarrow> \<not> mfa_condition pf h m \<Longrightarrow> ASSERT_MFA pf h m = Inl MFA_assertion"
  by (simp add: ASSERT_MFA_def ASSERT_def)

lemma ASSERT_opcode_cases:
  "ASSERT_opcode pf h ci = Inr () \<or> ASSERT_opcode pf h ci = Inl Opcode_assertion"
  by (simp add: ASSERT_opcode_def ASSERT_def split: build.split)

lemma ASSERT_opcode_BEAMASM: "flavour pf = BEAMASM \<Longrightarrow> ASSERT_opcode pf h ci = Inr ()"
  by (simp add: ASSERT_opcode_def)

text \<open>
  Claim C5 as stated fails in a debug build without \<^verbatim>\<open>BEAMASM\<close>: the record at
  \<open>0x2000\<close> has the triple \<^verbatim>\<open>NIL/NIL/-1\<close>, which satisfies \<^verbatim>\<open>ASSERT_MFA\<close>,
  and yet both header-based accessors fault on it, in the opcode assertion.
\<close>

theorem accessors_validate_mfa_counterexample:
  "mfa_condition (debug_platform Interpreter) example_heap (mfa_of 0x2000) \<and>
   erts_codeinfo_to_code (debug_platform Interpreter) example_heap 0x2000 = Inl Opcode_assertion \<and>
   erts_code_to_codeinfo (debug_platform Interpreter) example_heap 0x2028 = Inl Opcode_assertion"
  by (simp add: mfa_condition_def debug_platform_def example_heap_def module_of_def
      function_of_def arity_of_def word_bytes_64 mfa_of_64 erts_codeinfo_to_code_def
      erts_code_to_codeinfo_def sizeof_ErtsCodeInfo_64 after_def ASSERT_opcode_def ASSERT_def
      opcode_condition_def op_of_def NIL_def Let_def)

text \<open>
  Claim C5, amended. In a debug build each of the four accessors faults when the triple
  it reaches violates \<^verbatim>\<open>ASSERT_MFA\<close> (module and function an atom or
  \<^verbatim>\<open>NIL\<close>, arity below 1024 or the word \<open>-1\<close>). When the triple satisfies it, the
  two triple-based accessors return, and \<^verbatim>\<open>ASSERT_MFA\<close> does not fire in the two
  header-based ones; these return when in addition the build is \<^verbatim>\<open>BEAMASM\<close> or the
  header's opcode word is the function header opcode or zero, which a build without
  \<^verbatim>\<open>BEAMASM\<close> asserts as well.
\<close>

theorem accessors_validate_mfa:
  "(debug pf \<and> \<not> mfa_condition pf h (mfa_of ci) \<longrightarrow>
      isl (erts_codeinfo_to_code pf h ci) \<and>
      isl (erts_code_to_codeinfo pf h (ci + sizeof_ErtsCodeInfo))) \<and>
   (debug pf \<and> \<not> mfa_condition pf h m \<longrightarrow>
      erts_codemfa_to_code pf h m = Inl MFA_assertion \<and>
      erts_code_to_codemfa pf h (m + sizeof_ErtsCodeMFA) = Inl MFA_assertion) \<and>
   (mfa_condition pf h m \<longrightarrow>
      erts_codemfa_to_code pf h m = Inr (m + sizeof_ErtsCodeMFA) \<and>
      erts_code_to_codemfa pf h (m + sizeof_ErtsCodeMFA) = Inr m) \<and>
   (mfa_condition pf h (mfa_of ci) \<longrightarrow>
      erts_codeinfo_to_code pf h ci \<noteq> Inl MFA_assertion \<and>
      erts_code_to_codeinfo pf h (ci + sizeof_ErtsCodeInfo) \<noteq> Inl MFA_assertion) \<and>
   (mfa_condition pf h (mfa_of ci) \<and> (flavour pf = BEAMASM \<or> opcode_condition pf h ci) \<longrightarrow>
      erts_codeinfo_to_code pf h ci = Inr (ci + sizeof_ErtsCodeInfo) \<and>
      erts_code_to_codeinfo pf h (ci + sizeof_ErtsCodeInfo) = Inr ci)"
proof (intro conjI impI)
  assume a: "debug pf \<and> \<not> mfa_condition pf h (mfa_of ci)"
  then have f: "ASSERT_MFA pf h (mfa_of ci) = Inl MFA_assertion"
    by (simp add: ASSERT_MFA_fires)
  show "isl (erts_codeinfo_to_code pf h ci)"
    using ASSERT_opcode_cases [of pf h ci]
    by (auto simp: erts_codeinfo_to_code_def after_def f)
  show "isl (erts_code_to_codeinfo pf h (ci + sizeof_ErtsCodeInfo))"
    using ASSERT_opcode_cases [of pf h ci]
    by (auto simp: erts_code_to_codeinfo_def after_def f Let_def)
next
  assume a: "debug pf \<and> \<not> mfa_condition pf h m"
  then have f: "ASSERT_MFA pf h m = Inl MFA_assertion"
    by (simp add: ASSERT_MFA_fires)
  show "erts_codemfa_to_code pf h m = Inl MFA_assertion"
    by (simp add: erts_codemfa_to_code_def after_def f)
  show "erts_code_to_codemfa pf h (m + sizeof_ErtsCodeMFA) = Inl MFA_assertion"
    by (simp add: erts_code_to_codemfa_def after_def f Let_def)
next
  assume c: "mfa_condition pf h m"
  then have k: "ASSERT_MFA pf h m = Inr ()"
    by (rule ASSERT_MFA_ok)
  show "erts_codemfa_to_code pf h m = Inr (m + sizeof_ErtsCodeMFA)"
    using c by (rule codemfa_to_code_valid)
  show "erts_code_to_codemfa pf h (m + sizeof_ErtsCodeMFA) = Inr m"
    by (simp add: erts_code_to_codemfa_def after_def k Let_def)
next
  assume c: "mfa_condition pf h (mfa_of ci)"
  then have k: "ASSERT_MFA pf h (mfa_of ci) = Inr ()"
    by (rule ASSERT_MFA_ok)
  show "erts_codeinfo_to_code pf h ci \<noteq> Inl MFA_assertion"
    using ASSERT_opcode_cases [of pf h ci]
    by (auto simp: erts_codeinfo_to_code_def after_def k)
  show "erts_code_to_codeinfo pf h (ci + sizeof_ErtsCodeInfo) \<noteq> Inl MFA_assertion"
    using ASSERT_opcode_cases [of pf h ci]
    by (auto simp: erts_code_to_codeinfo_def after_def k Let_def)
next
  assume a: "mfa_condition pf h (mfa_of ci) \<and> (flavour pf = BEAMASM \<or> opcode_condition pf h ci)"
  then have k: "ASSERT_MFA pf h (mfa_of ci) = Inr ()"
    by (simp add: ASSERT_MFA_ok)
  from a have o: "ASSERT_opcode pf h ci = Inr ()"
    by (auto simp: ASSERT_opcode_BEAMASM ASSERT_opcode_ok)
  show "erts_codeinfo_to_code pf h ci = Inr (ci + sizeof_ErtsCodeInfo)"
    by (simp add: erts_codeinfo_to_code_def after_def k o)
  show "erts_code_to_codeinfo pf h (ci + sizeof_ErtsCodeInfo) = Inr ci"
    by (simp add: erts_code_to_codeinfo_def after_def k o Let_def)
qed

lemma example_bad_arity: "\<not> mfa_condition (debug_platform b) example_heap 0x3010"
  by (simp add: mfa_condition_def debug_platform_def
      example_heap_def module_of_def function_of_def arity_of_def word_bytes_64)

lemma example_opcode_condition: "opcode_condition (debug_platform b) example_heap 0x1000"
  by (simp add: opcode_condition_def debug_platform_def example_heap_def op_of_def)

text \<open>
  Claim C5 holds of a concrete input that meets its hypotheses.
\<close>

theorem accessors_validate_mfa_witness:
  "debug (debug_platform Interpreter) \<and>
   \<not> mfa_condition (debug_platform Interpreter) example_heap (mfa_of 0x3000) \<and>
   mfa_condition (debug_platform Interpreter) example_heap (mfa_of 0x1000) \<and>
   opcode_condition (debug_platform Interpreter) example_heap 0x1000 \<and>
   isl (erts_codeinfo_to_code (debug_platform Interpreter) example_heap 0x3000) \<and>
   isl (erts_code_to_codeinfo (debug_platform Interpreter) example_heap 0x3028) \<and>
   erts_codemfa_to_code (debug_platform Interpreter) example_heap 0x3010 = Inl MFA_assertion \<and>
   erts_code_to_codemfa (debug_platform Interpreter) example_heap 0x3028 = Inl MFA_assertion \<and>
   erts_codemfa_to_code (debug_platform Interpreter) example_heap 0x1010 = Inr 0x1028 \<and>
   erts_code_to_codemfa (debug_platform Interpreter) example_heap 0x1028 = Inr 0x1010 \<and>
   erts_codeinfo_to_code (debug_platform Interpreter) example_heap 0x1000 = Inr 0x1028 \<and>
   erts_code_to_codeinfo (debug_platform Interpreter) example_heap 0x1028 = Inr 0x1000"
  using accessors_validate_mfa [of "debug_platform Interpreter" example_heap "0x3000" "0x3010"]
    accessors_validate_mfa [of "debug_platform Interpreter" example_heap "0x1000" "0x1010"]
    example_bad_arity [of Interpreter] example_mfa_condition [of Interpreter]
    example_opcode_condition [of Interpreter]
  by (simp add: sizeof_ErtsCodeInfo_64 sizeof_ErtsCodeMFA_64 mfa_of_64 debug_platform_def)


text \<open>
  Claim C4 as stated fails in a build without \<^verbatim>\<open>BEAMASM\<close>: the address array
  of a dispatch table has three slots there, not \<^verbatim>\<open>ERTS_NUM_CODE_IX + 1\<close>.
\<close>

theorem addressv_size_by_build_counterexample:
  "wf_ErtsDispatchable Interpreter (new_ErtsDispatchable Interpreter (0 :: 64 word)) \<and>
   length (addresses (new_ErtsDispatchable Interpreter (0 :: 64 word))) = 3 \<and>
   ERTS_ADDRESSV_SIZE Interpreter \<noteq> ERTS_NUM_CODE_IX + 1"
  by (simp add: wf_ErtsDispatchable_def new_ErtsDispatchable_def ERTS_NUM_CODE_IX_def)

text \<open>
  Claim C4, amended. In a \<^verbatim>\<open>BEAMASM\<close> build the address array of
  \<^verbatim>\<open>ErtsDispatchable\<close> has \<^verbatim>\<open>ERTS_NUM_CODE_IX + 1 = 4\<close> slots, one per code index
  and one more; in a build without \<^verbatim>\<open>BEAMASM\<close> it has exactly
  \<^verbatim>\<open>ERTS_NUM_CODE_IX = 3\<close> slots and no extra one.
\<close>

theorem addressv_size_by_build:
  "ERTS_ADDRESSV_SIZE BEAMASM = ERTS_NUM_CODE_IX + 1 \<and>
   ERTS_ADDRESSV_SIZE BEAMASM = 4 \<and>
   ERTS_ADDRESSV_SIZE Interpreter = ERTS_NUM_CODE_IX \<and>
   ERTS_ADDRESSV_SIZE Interpreter = 3 \<and>
   wf_ErtsDispatchable BEAMASM d = (length (addresses d) = 4) \<and>
   wf_ErtsDispatchable Interpreter d = (length (addresses d) = 3) \<and>
   wf_ErtsDispatchable b (new_ErtsDispatchable b p)"
  by (simp add: wf_ErtsDispatchable_def new_ErtsDispatchable_def ERTS_NUM_CODE_IX_def)


text \<open>
  Claim C10. Where \<^verbatim>\<open>ERTS_SAVE_CALLS_CODE_IX\<close> is defined it equals
  \<^verbatim>\<open>ERTS_ADDRESSV_SIZE - 1 = 3\<close> and differs from every code index 0, 1, 2: a write
  to the reserved slot changes no slot of a code index, and a write to the slot of a code
  index does not change the reserved slot.
\<close>

theorem save_calls_slot_disjoint:
  assumes "ERTS_SAVE_CALLS_CODE_IX b = Some k" and "wf_ErtsDispatchable b d"
  shows "k = ERTS_ADDRESSV_SIZE b - 1 \<and> k = 3 \<and>
         (\<forall>ix < ERTS_NUM_CODE_IX. ix \<noteq> k) \<and>
         (\<exists>d'. set_address d k p = Some d' \<and> address_for d' k = Some p \<and>
               (\<forall>ix < ERTS_NUM_CODE_IX. address_for d' ix = address_for d ix)) \<and>
         (\<forall>ix < ERTS_NUM_CODE_IX.
            \<exists>d'. set_address d ix q = Some d' \<and> address_for d' ix = Some q \<and>
                 address_for d' k = address_for d k)"
proof -
  from assms(1) have b: "b = BEAMASM" and k: "k = 3"
    by (cases b; simp add: ERTS_NUM_CODE_IX_def; fail)+
  from assms(2) b have len: "length (addresses d) = 4"
    by (simp add: wf_ErtsDispatchable_def ERTS_NUM_CODE_IX_def)
  show ?thesis
    using len by (simp add: b k ERTS_NUM_CODE_IX_def set_address_def address_for_def)
qed

text \<open>
  Claim C10 holds of a concrete input that meets its hypotheses.
\<close>

theorem save_calls_slot_disjoint_witness:
  "ERTS_SAVE_CALLS_CODE_IX BEAMASM = Some 3 \<and>
   wf_ErtsDispatchable BEAMASM \<lparr>addresses = [10, 11, 12, 13 :: nat]\<rparr> \<and>
   set_address \<lparr>addresses = [10, 11, 12, 13 :: nat]\<rparr> 3 99 = Some \<lparr>addresses = [10, 11, 12, 99]\<rparr> \<and>
   address_for \<lparr>addresses = [10, 11, 12, 99 :: nat]\<rparr> 0 = Some 10 \<and>
   address_for \<lparr>addresses = [10, 11, 12, 99 :: nat]\<rparr> 1 = Some 11 \<and>
   address_for \<lparr>addresses = [10, 11, 12, 99 :: nat]\<rparr> 2 = Some 12"
  using save_calls_slot_disjoint [of BEAMASM 3 "\<lparr>addresses = [10, 11, 12, 13 :: nat]\<rparr>" 99 0]
  by (simp add: ERTS_NUM_CODE_IX_def wf_ErtsDispatchable_def set_address_def address_for_def)

section \<open>The staging lifecycle and the write permission\<close>


lemma word32_less_3: "((r :: 32 word) < 3) = (r = 0 \<or> r = 1 \<or> r = 2)"
proof
  assume "r < 3"
  then have "unat r < 3" by (simp add: word_less_nat_alt)
  then have "unat r = 0 \<or> unat r = 1 \<or> unat r = 2" by arith
  then show "r = 0 \<or> r = 1 \<or> r = 2"
    by (auto simp: word_unat_eq_iff)
next
  assume "r = 0 \<or> r = 1 \<or> r = 2"
  then show "r < 3" by auto
qed

lemma retiring_third:
  assumes "code_ix_inv s"
  shows "retiring_code_ix s < 3"
    and "retiring_code_ix s \<noteq> erts_active_code_ix s"
    and "retiring_code_ix s \<noteq> erts_staging_code_ix s"
    and "r < 3 \<Longrightarrow> r \<noteq> erts_active_code_ix s \<Longrightarrow> r \<noteq> erts_staging_code_ix s \<Longrightarrow> r = retiring_code_ix s"
  using assms
  by (auto simp: code_ix_inv_def retiring_code_ix_def Let_def word32_less_3)


lemma start_effect:
  assumes "lifecycle s = Idle" and "erts_has_code_write_permission c s"
  shows "erts_start_staging_code_ix c n s =
           Some (s\<lparr>the_staging_code_index := retiring_code_ix s, lifecycle := Staged\<rparr>)"
  using assms by (simp add: erts_start_staging_code_ix_def erts_has_code_write_permission_def)

text \<open>
  Claim C6. With the lifecycle idle and the write permission held by the caller,
  \<^verbatim>\<open>erts_start_staging_code_ix\<close> sets the staging index to the retiring index, the
  one value among 0, 1, 2 that is neither the active nor the staging index, and leaves
  the active index as it is.
\<close>

theorem start_stages_retiring:
  assumes "code_ix_inv s" and "lifecycle s = Idle" and "erts_has_code_write_permission c s"
  shows "\<exists>s'. erts_start_staging_code_ix c n s = Some s' \<and>
              erts_staging_code_ix s' = retiring_code_ix s \<and>
              erts_active_code_ix s' = erts_active_code_ix s \<and>
              lifecycle s' = Staged \<and>
              retiring_code_ix s < 3 \<and>
              retiring_code_ix s \<noteq> erts_active_code_ix s \<and>
              retiring_code_ix s \<noteq> erts_staging_code_ix s \<and>
              (\<forall>r. r < 3 \<and> r \<noteq> erts_active_code_ix s \<and> r \<noteq> erts_staging_code_ix s
                   \<longrightarrow> r = retiring_code_ix s)"
proof -
  let ?s' = "s\<lparr>the_staging_code_index := retiring_code_ix s, lifecycle := Staged\<rparr>"
  have u: "\<forall>r. r < 3 \<and> r \<noteq> erts_active_code_ix s \<and> r \<noteq> erts_staging_code_ix s
            \<longrightarrow> r = retiring_code_ix s"
    using retiring_third(4) [OF assms(1)] by blast
  have "erts_start_staging_code_ix c n s = Some ?s'"
    by (rule start_effect [OF assms(2,3)])
  moreover have "erts_staging_code_ix ?s' = retiring_code_ix s"
    by (simp add: erts_staging_code_ix_def)
  moreover have "erts_active_code_ix ?s' = erts_active_code_ix s"
    by (simp add: erts_active_code_ix_def)
  moreover have "lifecycle ?s' = Staged"
    by simp
  ultimately show ?thesis
    using retiring_third(1-3) [OF assms(1)] u by blast
qed

lemma holding_inv: "code_ix_inv (holding c)"
  by (simp add: holding_def code_ix_inv_def erts_code_ix_init_def erts_active_code_ix_def
      erts_staging_code_ix_def)

text \<open>
  Claim C6 holds of a concrete input that meets its hypotheses.
\<close>

theorem start_stages_retiring_witness:
  "code_ix_inv (holding 7) \<and> lifecycle (holding 7) = Idle \<and>
   erts_has_code_write_permission 7 (holding 7) \<and>
   erts_active_code_ix (holding 7) = 0 \<and> erts_staging_code_ix (holding 7) = 1 \<and>
   map_option erts_staging_code_ix (erts_start_staging_code_ix 7 0 (holding 7)) = Some 2 \<and>
   map_option erts_active_code_ix (erts_start_staging_code_ix 7 0 (holding 7)) = Some 0"
  using start_stages_retiring [of "holding 7" 7 0] holding_inv [of 7]
  by (simp add: holding_def erts_code_ix_init_def erts_has_code_write_permission_def
      erts_start_staging_code_ix_def retiring_code_ix_def erts_active_code_ix_def
      erts_staging_code_ix_def)


lemma commit_effect:
  assumes "lifecycle s = Ended" and "erts_has_code_write_permission c s"
  shows "erts_commit_staging_code_ix c s =
           Some (s\<lparr>the_active_code_index := erts_staging_code_ix s,
                   the_staging_code_index := retiring_code_ix s,
                   lifecycle := Idle\<rparr>)"
  using assms by (simp add: erts_commit_staging_code_ix_def erts_has_code_write_permission_def)

lemma commit_roles:
  assumes "code_ix_inv s" and "lifecycle s = Ended" and "erts_has_code_write_permission c s"
  shows "\<exists>s'. erts_commit_staging_code_ix c s = Some s' \<and>
              erts_active_code_ix s' = erts_staging_code_ix s \<and>
              retiring_code_ix s' = erts_active_code_ix s \<and>
              lifecycle s' = Idle \<and> code_ix_inv s'"
proof -
  define a where "a = the_active_code_index s"
  define g where "g = the_staging_code_index s"
  from assms(1) have ag: "a \<noteq> g" and "a = 0 \<or> a = 1 \<or> a = 2" and "g = 0 \<or> g = 1 \<or> g = 2"
    by (simp_all add: code_ix_inv_def a_def g_def erts_active_code_ix_def
        erts_staging_code_ix_def word32_less_3)
  then consider "a = 0 \<and> g = 1" | "a = 0 \<and> g = 2" | "a = 1 \<and> g = 0" | "a = 1 \<and> g = 2"
    | "a = 2 \<and> g = 0" | "a = 2 \<and> g = 1"
    by blast
  then show ?thesis
    unfolding commit_effect [OF assms(2,3)]
    by cases (simp_all add: a_def g_def code_ix_inv_def retiring_code_ix_def
        erts_active_code_ix_def erts_staging_code_ix_def)
qed


lemma end_effect:
  assumes "lifecycle s = Staged" and "erts_has_code_write_permission c s"
  shows "erts_end_staging_code_ix c s = Some (s\<lparr>lifecycle := Ended\<rparr>)"
  using assms by (simp add: erts_end_staging_code_ix_def erts_has_code_write_permission_def)

lemma abort_effect:
  assumes "lifecycle s = Staged \<or> lifecycle s = Ended" and "erts_has_code_write_permission c s"
  shows "erts_abort_staging_code_ix c s = Some (s\<lparr>lifecycle := Idle\<rparr>)"
  using assms by (simp add: erts_abort_staging_code_ix_def erts_has_code_write_permission_def)

lemma start_inv:
  assumes "code_ix_inv s"
  shows "code_ix_inv (s\<lparr>the_staging_code_index := retiring_code_ix s, lifecycle := ph\<rparr>)"
  using retiring_third(1-3) [OF assms] assms
  by (simp add: code_ix_inv_def erts_active_code_ix_def erts_staging_code_ix_def)

text \<open>
  Claim C1. For a start, end, commit sequence run by the holder of the write permission,
  right after \<^verbatim>\<open>erts_commit_staging_code_ix\<close> the active index is the staging index
  of just before the commit, and the new retiring index (the one value among 0, 1, 2 that
  is neither the new active nor the new staging index) is the active index of just before
  the commit. The first part is the commit from any ended state, the second the whole
  sequence from an idle one.
\<close>

theorem commit_publishes_staging:
  "(code_ix_inv s \<and> lifecycle s = Ended \<and> erts_has_code_write_permission c s \<longrightarrow>
      (\<exists>s'. erts_commit_staging_code_ix c s = Some s' \<and>
            erts_active_code_ix s' = erts_staging_code_ix s \<and>
            retiring_code_ix s' = erts_active_code_ix s \<and>
            retiring_code_ix s' < 3 \<and>
            retiring_code_ix s' \<noteq> erts_active_code_ix s' \<and>
            retiring_code_ix s' \<noteq> erts_staging_code_ix s')) \<and>
   (code_ix_inv t \<and> lifecycle t = Idle \<and> erts_has_code_write_permission c t \<longrightarrow>
      (\<exists>t1 t2 t3. erts_start_staging_code_ix c n t = Some t1 \<and>
            erts_end_staging_code_ix c t1 = Some t2 \<and>
            erts_commit_staging_code_ix c t2 = Some t3 \<and>
            erts_active_code_ix t3 = erts_staging_code_ix t2 \<and>
            retiring_code_ix t3 = erts_active_code_ix t2 \<and>
            retiring_code_ix t3 < 3 \<and>
            retiring_code_ix t3 \<noteq> erts_active_code_ix t3 \<and>
            retiring_code_ix t3 \<noteq> erts_staging_code_ix t3))"
proof (intro conjI impI)
  assume a: "code_ix_inv s \<and> lifecycle s = Ended \<and> erts_has_code_write_permission c s"
  then obtain s' where s': "erts_commit_staging_code_ix c s = Some s'"
      "erts_active_code_ix s' = erts_staging_code_ix s"
      "retiring_code_ix s' = erts_active_code_ix s" "code_ix_inv s'"
    using commit_roles [of s c] by blast
  show "\<exists>s'. erts_commit_staging_code_ix c s = Some s' \<and>
            erts_active_code_ix s' = erts_staging_code_ix s \<and>
            retiring_code_ix s' = erts_active_code_ix s \<and>
            retiring_code_ix s' < 3 \<and>
            retiring_code_ix s' \<noteq> erts_active_code_ix s' \<and>
            retiring_code_ix s' \<noteq> erts_staging_code_ix s'"
    using s'(1-3) retiring_third(1-3) [OF s'(4)] by blast
next
  assume a: "code_ix_inv t \<and> lifecycle t = Idle \<and> erts_has_code_write_permission c t"
  let ?t1 = "t\<lparr>the_staging_code_index := retiring_code_ix t, lifecycle := Staged\<rparr>"
  let ?t2 = "?t1\<lparr>lifecycle := Ended\<rparr>"
  have 1: "erts_start_staging_code_ix c n t = Some ?t1"
    using a by (simp add: start_effect)
  have 2: "erts_end_staging_code_ix c ?t1 = Some ?t2"
    using a by (simp add: end_effect erts_has_code_write_permission_def)
  have "code_ix_inv ?t1"
    using a by (simp add: start_inv)
  then have i2: "code_ix_inv ?t2"
    by (simp add: code_ix_inv_def erts_active_code_ix_def erts_staging_code_ix_def)
  have p2: "lifecycle ?t2 = Ended" "erts_has_code_write_permission c ?t2"
    using a by (simp_all add: erts_has_code_write_permission_def)
  obtain t3 where t3: "erts_commit_staging_code_ix c ?t2 = Some t3"
      "erts_active_code_ix t3 = erts_staging_code_ix ?t2"
      "retiring_code_ix t3 = erts_active_code_ix ?t2" "code_ix_inv t3"
    using commit_roles [OF i2 p2] by blast
  show "\<exists>t1 t2 t3. erts_start_staging_code_ix c n t = Some t1 \<and>
            erts_end_staging_code_ix c t1 = Some t2 \<and>
            erts_commit_staging_code_ix c t2 = Some t3 \<and>
            erts_active_code_ix t3 = erts_staging_code_ix t2 \<and>
            retiring_code_ix t3 = erts_active_code_ix t2 \<and>
            retiring_code_ix t3 < 3 \<and>
            retiring_code_ix t3 \<noteq> erts_active_code_ix t3 \<and>
            retiring_code_ix t3 \<noteq> erts_staging_code_ix t3"
    using 1 2 t3(1-3) retiring_third(1-3) [OF t3(4)] by blast
qed


text \<open>
  Claim C1 holds of a concrete input that meets its hypotheses.
\<close>

theorem commit_publishes_staging_witness:
  "code_ix_inv (holding 7\<lparr>the_staging_code_index := 2, lifecycle := Ended\<rparr>) \<and>
   lifecycle (holding 7\<lparr>the_staging_code_index := 2, lifecycle := Ended\<rparr>) = Ended \<and>
   erts_has_code_write_permission 7 (holding 7\<lparr>the_staging_code_index := 2, lifecycle := Ended\<rparr>) \<and>
   code_ix_inv (holding 7) \<and> lifecycle (holding 7) = Idle \<and>
   erts_has_code_write_permission 7 (holding 7) \<and>
   map_option erts_active_code_ix
     (erts_commit_staging_code_ix 7 (holding 7\<lparr>the_staging_code_index := 2, lifecycle := Ended\<rparr>))
     = Some 2 \<and>
   map_option retiring_code_ix
     (erts_commit_staging_code_ix 7 (holding 7\<lparr>the_staging_code_index := 2, lifecycle := Ended\<rparr>))
     = Some 0 \<and>
   map_option erts_active_code_ix
     (Option.bind (Option.bind (erts_start_staging_code_ix 7 0 (holding 7))
        (erts_end_staging_code_ix 7)) (erts_commit_staging_code_ix 7)) = Some 2 \<and>
   map_option retiring_code_ix
     (Option.bind (Option.bind (erts_start_staging_code_ix 7 0 (holding 7))
        (erts_end_staging_code_ix 7)) (erts_commit_staging_code_ix 7)) = Some 0"
  using commit_publishes_staging [of "holding 7\<lparr>the_staging_code_index := 2, lifecycle := Ended\<rparr>" 7 "holding 7" 0]
    holding_inv [of 7]
  by (simp add: holding_def erts_code_ix_init_def erts_has_code_write_permission_def
      erts_start_staging_code_ix_def erts_end_staging_code_ix_def
      erts_commit_staging_code_ix_def retiring_code_ix_def erts_active_code_ix_def
      erts_staging_code_ix_def code_ix_inv_def)

text \<open>
  Claim C7. \<^verbatim>\<open>erts_abort_staging_code_ix\<close> from a staged or an ended state leaves
  the active index unchanged and returns the lifecycle to idle. Through start, an
  optional end, and abort the active index stays what it was before the start, and it
  never is the index of the discarded staging generation: a reader, who indexes by the
  active index, is never directed to that generation.
\<close>

theorem abort_keeps_active:
  "(erts_has_code_write_permission c s \<and> (lifecycle s = Staged \<or> lifecycle s = Ended) \<longrightarrow>
      (\<exists>s'. erts_abort_staging_code_ix c s = Some s' \<and>
            erts_active_code_ix s' = erts_active_code_ix s \<and>
            lifecycle s' = Idle)) \<and>
   (code_ix_inv t \<and> lifecycle t = Idle \<and> erts_has_code_write_permission c t \<longrightarrow>
      (\<exists>t1 t2 t3 t4.
            erts_start_staging_code_ix c n t = Some t1 \<and>
            erts_abort_staging_code_ix c t1 = Some t2 \<and>
            erts_end_staging_code_ix c t1 = Some t3 \<and>
            erts_abort_staging_code_ix c t3 = Some t4 \<and>
            lifecycle t2 = Idle \<and> lifecycle t4 = Idle \<and>
            erts_active_code_ix t1 = erts_active_code_ix t \<and>
            erts_active_code_ix t2 = erts_active_code_ix t \<and>
            erts_active_code_ix t3 = erts_active_code_ix t \<and>
            erts_active_code_ix t4 = erts_active_code_ix t \<and>
            erts_active_code_ix t \<noteq> erts_staging_code_ix t1))"
proof (intro conjI impI)
  assume a: "erts_has_code_write_permission c s \<and> (lifecycle s = Staged \<or> lifecycle s = Ended)"
  then have "erts_abort_staging_code_ix c s = Some (s\<lparr>lifecycle := Idle\<rparr>)"
    by (simp add: abort_effect)
  then show "\<exists>s'. erts_abort_staging_code_ix c s = Some s' \<and>
            erts_active_code_ix s' = erts_active_code_ix s \<and> lifecycle s' = Idle"
    by (simp add: erts_active_code_ix_def)
next
  assume a: "code_ix_inv t \<and> lifecycle t = Idle \<and> erts_has_code_write_permission c t"
  let ?t1 = "t\<lparr>the_staging_code_index := retiring_code_ix t, lifecycle := Staged\<rparr>"
  let ?t2 = "?t1\<lparr>lifecycle := Idle\<rparr>"
  let ?t3 = "?t1\<lparr>lifecycle := Ended\<rparr>"
  let ?t4 = "?t3\<lparr>lifecycle := Idle\<rparr>"
  have 1: "erts_start_staging_code_ix c n t = Some ?t1"
    using a by (simp add: start_effect)
  have 2: "erts_abort_staging_code_ix c ?t1 = Some ?t2"
    using a by (simp add: abort_effect erts_has_code_write_permission_def)
  have 3: "erts_end_staging_code_ix c ?t1 = Some ?t3"
    using a by (simp add: end_effect erts_has_code_write_permission_def)
  have 4: "erts_abort_staging_code_ix c ?t3 = Some ?t4"
    using a by (simp add: abort_effect erts_has_code_write_permission_def)
  have 5: "erts_active_code_ix t \<noteq> erts_staging_code_ix ?t1"
    using a retiring_third(2) [of t] by (simp add: erts_staging_code_ix_def)
  have 6: "lifecycle ?t2 = Idle" "lifecycle ?t4 = Idle"
      "erts_active_code_ix ?t1 = erts_active_code_ix t"
      "erts_active_code_ix ?t2 = erts_active_code_ix t"
      "erts_active_code_ix ?t3 = erts_active_code_ix t"
      "erts_active_code_ix ?t4 = erts_active_code_ix t"
    by (simp_all add: erts_active_code_ix_def)
  show "\<exists>t1 t2 t3 t4.
            erts_start_staging_code_ix c n t = Some t1 \<and>
            erts_abort_staging_code_ix c t1 = Some t2 \<and>
            erts_end_staging_code_ix c t1 = Some t3 \<and>
            erts_abort_staging_code_ix c t3 = Some t4 \<and>
            lifecycle t2 = Idle \<and> lifecycle t4 = Idle \<and>
            erts_active_code_ix t1 = erts_active_code_ix t \<and>
            erts_active_code_ix t2 = erts_active_code_ix t \<and>
            erts_active_code_ix t3 = erts_active_code_ix t \<and>
            erts_active_code_ix t4 = erts_active_code_ix t \<and>
            erts_active_code_ix t \<noteq> erts_staging_code_ix t1"
    using 1 2 3 4 5 6 by blast
qed

text \<open>
  Claim C7 holds of a concrete input that meets its hypotheses.
\<close>

theorem abort_keeps_active_witness:
  "erts_has_code_write_permission 7 (holding 7\<lparr>the_staging_code_index := 2, lifecycle := Ended\<rparr>) \<and>
   lifecycle (holding 7\<lparr>the_staging_code_index := 2, lifecycle := Ended\<rparr>) = Ended \<and>
   code_ix_inv (holding 7) \<and> lifecycle (holding 7) = Idle \<and>
   erts_has_code_write_permission 7 (holding 7) \<and>
   erts_active_code_ix (holding 7) = 0 \<and>
   map_option erts_active_code_ix
     (erts_abort_staging_code_ix 7 (holding 7\<lparr>the_staging_code_index := 2, lifecycle := Ended\<rparr>))
     = Some 0 \<and>
   map_option lifecycle
     (erts_abort_staging_code_ix 7 (holding 7\<lparr>the_staging_code_index := 2, lifecycle := Ended\<rparr>))
     = Some Idle \<and>
   map_option erts_staging_code_ix (erts_start_staging_code_ix 7 0 (holding 7)) = Some 2 \<and>
   map_option erts_active_code_ix
     (Option.bind (erts_start_staging_code_ix 7 0 (holding 7))
        (erts_abort_staging_code_ix 7)) = Some 0 \<and>
   map_option lifecycle
     (Option.bind (erts_start_staging_code_ix 7 0 (holding 7))
        (erts_abort_staging_code_ix 7)) = Some Idle \<and>
   map_option erts_active_code_ix
     (Option.bind (Option.bind (erts_start_staging_code_ix 7 0 (holding 7))
        (erts_end_staging_code_ix 7)) (erts_abort_staging_code_ix 7)) = Some 0 \<and>
   map_option lifecycle
     (Option.bind (Option.bind (erts_start_staging_code_ix 7 0 (holding 7))
        (erts_end_staging_code_ix 7)) (erts_abort_staging_code_ix 7)) = Some Idle"
  using abort_keeps_active [of 7 "holding 7\<lparr>the_staging_code_index := 2, lifecycle := Ended\<rparr>" "holding 7" 0]
    holding_inv [of 7]
  by (simp add: holding_def erts_code_ix_init_def erts_has_code_write_permission_def
      erts_start_staging_code_ix_def erts_end_staging_code_ix_def
      erts_abort_staging_code_ix_def retiring_code_ix_def erts_active_code_ix_def
      erts_staging_code_ix_def code_ix_inv_def)


lemma init_inv: "code_ix_inv erts_code_ix_init"
  by (simp add: code_ix_inv_def erts_code_ix_init_def erts_active_code_ix_def
      erts_staging_code_ix_def)

lemma inv_indices_only:
  "the_active_code_index s' = the_active_code_index s \<Longrightarrow>
   the_staging_code_index s' = the_staging_code_index s \<Longrightarrow>
   code_ix_inv s \<Longrightarrow> code_ix_inv s'"
  by (simp add: code_ix_inv_def erts_active_code_ix_def erts_staging_code_ix_def)

lemma commit_inv:
  assumes "code_ix_inv s"
  shows "code_ix_inv (s\<lparr>the_active_code_index := erts_staging_code_ix s,
                        the_staging_code_index := retiring_code_ix s, lifecycle := ph\<rparr>)"
  using retiring_third(1-3) [OF assms] assms
  by (simp add: code_ix_inv_def erts_active_code_ix_def erts_staging_code_ix_def)

lemma step_inv:
  assumes "code_ix_inv s" and "step e s = Some (out, s')"
  shows "code_ix_inv s'"
proof (cases e)
  case (Try_seize c)
  with assms show ?thesis
    by (auto simp: erts_try_seize_code_write_permission_def
        split: option.splits if_splits elim!: inv_indices_only [rotated 2])
next
  case (Try_seize_aux c f a)
  with assms show ?thesis
    by (auto simp: erts_try_seize_code_write_permission_aux_def
        split: option.splits elim!: inv_indices_only [rotated 2])
next
  case (Release c)
  with assms show ?thesis
    by (auto simp: erts_release_code_write_permission_def
        split: if_splits elim!: inv_indices_only [rotated 2])
next
  case (Start c n)
  with assms show ?thesis
    by (auto simp: erts_start_staging_code_ix_def start_inv split: if_splits)
next
  case (End c)
  with assms show ?thesis
    by (auto simp: erts_end_staging_code_ix_def
        split: if_splits elim!: inv_indices_only [rotated 2])
next
  case (Commit c)
  with assms show ?thesis
    by (auto simp: erts_commit_staging_code_ix_def commit_inv split: if_splits)
next
  case (Abort c)
  with assms show ?thesis
    by (auto simp: erts_abort_staging_code_ix_def
        split: if_splits elim!: inv_indices_only [rotated 2])
qed

lemma exec_inv:
  "code_ix_inv s \<Longrightarrow> exec es s = Some (outs, s') \<Longrightarrow> code_ix_inv s'"
proof (induction es arbitrary: s outs)
  case Nil
  then show ?case by simp
next
  case (Cons e es)
  from Cons.prems(2) obtain out s1 outs1 where
    st: "step e s = Some (out, s1)" and ex: "exec es s1 = Some (outs1, s')"
    by (auto split: option.splits)
  from Cons.prems(1) st have "code_ix_inv s1" by (rule step_inv)
  then show ?case using ex by (rule Cons.IH)
qed

lemma exec_take:
  "exec es s = Some (outs, s') \<Longrightarrow> \<exists>t. exec (take n es) s = Some (take n outs, t)"
proof (induction es arbitrary: s outs n)
  case Nil
  then show ?case by simp
next
  case (Cons e es)
  from Cons.prems obtain out s1 outs1 where
    st: "step e s = Some (out, s1)" and ex: "exec es s1 = Some (outs1, s')"
    and o: "outs = out # outs1"
    by (auto split: option.splits)
  show ?case
  proof (cases n)
    case 0
    then show ?thesis by simp
  next
    case (Suc m)
    from Cons.IH [OF ex, of m] obtain t where "exec (take m es) s1 = Some (take m outs1, t)"
      by blast
    then show ?thesis by (simp add: Suc st o)
  qed
qed

text \<open>
  Claim C2. \<^verbatim>\<open>erts_code_ix_init\<close> establishes two distinct indices; every
  operation of the interface preserves that the active and the staging index differ and
  are both among 0, 1, 2; so it holds after every prefix of every interleaving of calls.
\<close>

theorem indices_distinct_invariant:
  "code_ix_inv erts_code_ix_init \<and>
   (code_ix_inv s \<and> step e s = Some (out, s') \<longrightarrow> code_ix_inv s') \<and>
   (code_ix_inv s0 \<and> exec es s0 = Some (outs, sn) \<longrightarrow>
      (\<forall>n. \<exists>t. exec (take n es) s0 = Some (take n outs, t) \<and>
               erts_active_code_ix t \<noteq> erts_staging_code_ix t \<and>
               erts_active_code_ix t < 3 \<and> erts_staging_code_ix t < 3))"
proof (intro conjI impI allI)
  show "code_ix_inv erts_code_ix_init" by (rule init_inv)
next
  assume "code_ix_inv s \<and> step e s = Some (out, s')"
  then show "code_ix_inv s'" using step_inv by blast
next
  fix n
  assume a: "code_ix_inv s0 \<and> exec es s0 = Some (outs, sn)"
  then obtain t where t: "exec (take n es) s0 = Some (take n outs, t)"
    using exec_take by blast
  with a have "code_ix_inv t" using exec_inv by blast
  with t show "\<exists>t. exec (take n es) s0 = Some (take n outs, t) \<and>
               erts_active_code_ix t \<noteq> erts_staging_code_ix t \<and>
               erts_active_code_ix t < 3 \<and> erts_staging_code_ix t < 3"
    by (auto simp: code_ix_inv_def)
qed


lemma example_run:
  "exec [Try_seize 7, Try_seize 8, Start 7 0, End 7, Commit 7, Release 7, Try_seize 8]
     erts_code_ix_init =
   Some ([Seized True, Seized False, Returned, Returned, Returned, Released (Some 8) [],
          Seized True],
         \<lparr>the_active_code_index = 2, the_staging_code_index = 1, lifecycle = Idle,
          permission = Some 8, waiters = [], aux_work = []\<rparr>)"
  by (simp add: erts_code_ix_init_def erts_try_seize_code_write_permission_def
      erts_start_staging_code_ix_def erts_end_staging_code_ix_def
      erts_commit_staging_code_ix_def erts_release_code_write_permission_def
      retiring_code_ix_def erts_active_code_ix_def erts_staging_code_ix_def)

text \<open>
  Claim C2 holds of a concrete input that meets its hypotheses.
\<close>

theorem indices_distinct_invariant_witness:
  "code_ix_inv erts_code_ix_init \<and>
   step (Try_seize 7) erts_code_ix_init = Some (Seized True, holding 7) \<and>
   code_ix_inv (holding 7) \<and>
   exec [Try_seize 7, Try_seize 8, Start 7 0, End 7, Commit 7, Release 7, Try_seize 8]
     erts_code_ix_init =
   Some ([Seized True, Seized False, Returned, Returned, Returned, Released (Some 8) [],
          Seized True],
         \<lparr>the_active_code_index = 2, the_staging_code_index = 1, lifecycle = Idle,
          permission = Some 8, waiters = [], aux_work = []\<rparr>) \<and>
   exec (take 3 [Try_seize 7, Try_seize 8, Start 7 0, End 7, Commit 7, Release 7, Try_seize 8])
     erts_code_ix_init =
   Some ([Seized True, Seized False, Returned],
         \<lparr>the_active_code_index = 0, the_staging_code_index = 2, lifecycle = Staged,
          permission = Some 7, waiters = [8], aux_work = []\<rparr>) \<and>
   code_ix_inv \<lparr>the_active_code_index = 0, the_staging_code_index = 2, lifecycle = Staged,
          permission = Some 7, waiters = [8], aux_work = []\<rparr>"
  using indices_distinct_invariant [of erts_code_ix_init "Try_seize 7" "Seized True" "holding 7" erts_code_ix_init
      "[Try_seize 7, Try_seize 8, Start 7 0, End 7, Commit 7, Release 7, Try_seize 8]"
      "[Seized True, Seized False, Returned, Returned, Returned, Released (Some 8) [],
          Seized True]"
      "\<lparr>the_active_code_index = 2, the_staging_code_index = 1, lifecycle = Idle,
          permission = Some 8, waiters = [], aux_work = []\<rparr>"]
    example_run
  by (simp add: holding_def erts_code_ix_init_def erts_try_seize_code_write_permission_def
      erts_start_staging_code_ix_def
      retiring_code_ix_def erts_active_code_ix_def erts_staging_code_ix_def code_ix_inv_def)


lemma step_Seized_True:
  "step e s = Some (Seized True, s') \<Longrightarrow> permission s = None \<and> permission s' \<noteq> None \<and> is_seizure e"
  by (cases e)
     (auto simp: erts_try_seize_code_write_permission_def
       erts_try_seize_code_write_permission_aux_def is_seizure_def
       split: option.splits if_splits prod.splits)

lemma step_keeps_held:
  "permission s \<noteq> None \<Longrightarrow> step e s = Some (out, s') \<Longrightarrow> \<not> is_release e \<Longrightarrow>
   permission s' = permission s"
  by (cases e)
     (auto simp: erts_try_seize_code_write_permission_def
       erts_try_seize_code_write_permission_aux_def is_release_def
       erts_start_staging_code_ix_def erts_end_staging_code_ix_def
       erts_commit_staging_code_ix_def erts_abort_staging_code_ix_def
       split: option.splits if_splits)

lemma exec_length: "exec es s = Some (outs, s') \<Longrightarrow> length outs = length es"
  by (induction es arbitrary: s outs) (auto split: option.splits)

lemma held_no_seizure:
  "permission s \<noteq> None \<Longrightarrow> exec es s = Some (outs, s') \<Longrightarrow> j < length es \<Longrightarrow>
   outs ! j = Seized True \<Longrightarrow> \<exists>k<j. is_release (es ! k)"
proof (induction es arbitrary: s outs j)
  case Nil
  then show ?case by simp
next
  case (Cons e es)
  from Cons.prems(2) obtain out s1 outs1 where
    st: "step e s = Some (out, s1)" and ex: "exec es s1 = Some (outs1, s')"
    and o: "outs = out # outs1"
    by (auto split: option.splits)
  show ?case
  proof (cases j)
    case 0
    with Cons.prems(4) o st have "permission s = None"
      using step_Seized_True by auto
    with Cons.prems(1) show ?thesis by simp
  next
    case (Suc j')
    show ?thesis
    proof (cases "is_release e")
      case True
      then show ?thesis using Suc by auto
    next
      case False
      with Cons.prems(1) st have "permission s1 \<noteq> None"
        using step_keeps_held by fastforce
      moreover have "j' < length es" "outs1 ! j' = Seized True"
        using Cons.prems(3,4) Suc o by simp_all
      ultimately obtain k where "k < j'" "is_release (es ! k)"
        using Cons.IH [OF _ ex] by blast
      then have "Suc k < j \<and> is_release ((e # es) ! Suc k)"
        using Suc by simp
      then show ?thesis by blast
    qed
  qed
qed

lemma release_between:
  "exec es s = Some (outs, s') \<Longrightarrow> i < j \<Longrightarrow> j < length es \<Longrightarrow>
   outs ! i = Seized True \<Longrightarrow> outs ! j = Seized True \<Longrightarrow>
   \<exists>k. i < k \<and> k < j \<and> is_release (es ! k)"
proof (induction es arbitrary: s outs i j)
  case Nil
  then show ?case by simp
next
  case (Cons e es)
  from Cons.prems(1) obtain out s1 outs1 where
    st: "step e s = Some (out, s1)" and ex: "exec es s1 = Some (outs1, s')"
    and o: "outs = out # outs1"
    by (auto split: option.splits)
  from Cons.prems(2) obtain j' where j: "j = Suc j'"
    by (cases j) simp_all
  have j': "j' < length es" "outs1 ! j' = Seized True"
    using Cons.prems(3,5) j o by simp_all
  show ?case
  proof (cases i)
    case 0
    with Cons.prems(4) o st have "permission s1 \<noteq> None"
      using step_Seized_True by auto
    then obtain k where "k < j'" "is_release (es ! k)"
      using held_no_seizure [OF _ ex j'] by blast
    then have "i < Suc k \<and> Suc k < j \<and> is_release ((e # es) ! Suc k)"
      using 0 j by simp
    then show ?thesis by blast
  next
    case (Suc i')
    then have "i' < j'" "outs1 ! i' = Seized True"
      using Cons.prems(2,4) j o by simp_all
    then obtain k where "i' < k" "k < j'" "is_release (es ! k)"
      using Cons.IH [OF ex _ j'(1) _ j'(2)] by blast
    then have "i < Suc k \<and> Suc k < j \<and> is_release ((e # es) ! Suc k)"
      using Suc j by simp
    then show ?thesis by blast
  qed
qed

text \<open>
  Claim C8. In every interleaving of calls, two seizures that return true have a
  release between them; the permission has at most one holder; a seizure returns true
  only when the permission was free, and makes the caller its holder; a caller that
  receives false leaves the permission with its holder and is enqueued as a waiter, or
  has its callback registered.
\<close>

theorem write_permission_exclusive:
  "(exec es s = Some (outs, s') \<and> i < j \<and> j < length es \<and>
      outs ! i = Seized True \<and> outs ! j = Seized True \<longrightarrow>
      (\<exists>k. i < k \<and> k < j \<and> is_release (es ! k))) \<and>
   (erts_has_code_write_permission c t \<and> erts_has_code_write_permission d t \<longrightarrow> c = d) \<and>
   (erts_try_seize_code_write_permission c t = Some (True, t') \<longrightarrow>
      permission t = None \<and> erts_has_code_write_permission c t') \<and>
   (erts_try_seize_code_write_permission_aux c f a t = Some (True, t') \<longrightarrow>
      permission t = None \<and> erts_has_code_write_permission c t') \<and>
   (erts_try_seize_code_write_permission c t = Some (False, t') \<longrightarrow>
      permission t' = permission t \<and> permission t \<noteq> None \<and> c \<in> set (waiters t')) \<and>
   (erts_try_seize_code_write_permission_aux c f a t = Some (False, t') \<longrightarrow>
      permission t' = permission t \<and> permission t \<noteq> None \<and> (f, a) \<in> set (aux_work t'))"
proof (intro conjI impI)
  assume "exec es s = Some (outs, s') \<and> i < j \<and> j < length es \<and>
      outs ! i = Seized True \<and> outs ! j = Seized True"
  then show "\<exists>k. i < k \<and> k < j \<and> is_release (es ! k)"
    using release_between [of es s outs s' i j] by blast
qed (auto simp: erts_has_code_write_permission_def erts_try_seize_code_write_permission_def
      erts_try_seize_code_write_permission_aux_def split: option.splits if_splits)


text \<open>
  Claim C8 holds of a concrete input that meets its hypotheses.
\<close>

theorem write_permission_exclusive_witness:
  "exec [Try_seize 7, Try_seize 8, Start 7 0, End 7, Commit 7, Release 7, Try_seize 8]
     erts_code_ix_init =
   Some ([Seized True, Seized False, Returned, Returned, Returned, Released (Some 8) [],
          Seized True],
         \<lparr>the_active_code_index = 2, the_staging_code_index = 1, lifecycle = Idle,
          permission = Some 8, waiters = [], aux_work = []\<rparr>) \<and>
   (0 :: nat) < 6 \<and>
   6 < length [Try_seize 7, Try_seize 8, Start 7 0, End 7, Commit 7, Release 7, Try_seize 8] \<and>
   is_release ([Try_seize 7, Try_seize 8, Start 7 0, End 7, Commit 7, Release 7, Try_seize 8] ! 5) \<and>
   erts_has_code_write_permission 7 (holding 7) \<and>
   erts_try_seize_code_write_permission 7 erts_code_ix_init = Some (True, holding 7) \<and>
   erts_try_seize_code_write_permission_aux 7 1 2 erts_code_ix_init = Some (True, holding 7) \<and>
   erts_try_seize_code_write_permission 8 (holding 7) =
     Some (False, holding 7\<lparr>waiters := [8]\<rparr>) \<and>
   erts_try_seize_code_write_permission_aux 8 1 2 (holding 7) =
     Some (False, holding 7\<lparr>aux_work := [(1, 2)]\<rparr>) \<and>
   8 \<in> set (waiters (holding 7\<lparr>waiters := [8]\<rparr>)) \<and>
   (1, 2) \<in> set (aux_work (holding 7\<lparr>aux_work := [(1, 2)]\<rparr>))"
  using write_permission_exclusive [of
      "[Try_seize 7, Try_seize 8, Start 7 0, End 7, Commit 7, Release 7, Try_seize 8]"
      erts_code_ix_init
      "[Seized True, Seized False, Returned, Returned, Returned, Released (Some 8) [],
          Seized True]"
      "\<lparr>the_active_code_index = 2, the_staging_code_index = 1, lifecycle = Idle,
          permission = Some 8, waiters = [], aux_work = []\<rparr>"
      0 6 7 "holding 7" 7 "holding 7" 1 2]
    write_permission_exclusive [of "[]" erts_code_ix_init "[]" erts_code_ix_init 0 0
      7 erts_code_ix_init 7 "holding 7" 1 2]
    write_permission_exclusive [of "[]" erts_code_ix_init "[]" erts_code_ix_init 0 0
      8 "holding 7" 8 "holding 7\<lparr>waiters := [8]\<rparr>" 1 2]
    write_permission_exclusive [of "[]" erts_code_ix_init "[]" erts_code_ix_init 0 0
      8 "holding 7" 8 "holding 7\<lparr>aux_work := [(1, 2)]\<rparr>" 1 2]
    example_run
  by (simp add: holding_def erts_code_ix_init_def erts_try_seize_code_write_permission_def
      erts_try_seize_code_write_permission_aux_def erts_has_code_write_permission_def
      is_release_def)

end
